theory Spec2Isabelle
  imports Main "HOL-Library.Multiset"
begin

section \<open>Python values, exceptions and the module constants\<close>

text \<open>
  The exceptions that the modelled fragment of \<^verbatim>\<open>main.py\<close> can meet. \<open>NameError\<close> is what
  Python raises when a name that is bound nowhere is evaluated, \<open>IndexError\<close> is raised by
  \<^verbatim>\<open>random.choice\<close> on an empty sequence, \<open>OperationalError\<close> is the error of the
  \<^verbatim>\<open>sqlite3\<close> module (file cannot be opened, no such table).
\<close>

datatype exn = NameError | IndexError | OperationalError

text \<open>The values that occur in result rows and in the colour tuple: strings and integers.\<close>

datatype pyval = PStr string | PInt int

definition DB_NAME :: string where
  "DB_NAME = ''test.db''"

definition COLORS :: "string list" where
  "COLORS = [''1_0.0_0.0'', ''0.0_1_0.0'', ''0.0_0.0_1'', ''0.5_0.5_0.5'', ''0.0_0.0_0.0'', ''1_1_1'']"

definition TEXTS :: "string list" where
  "TEXTS = [''Test text 1'', ''blah blah blah'', ''New info: top secret!'', ''Test text 2'',
            ''Lorem Ipsum'', ''That'' @ [CHR 0x27] @ ''s My Bag'']"

section \<open>Library functions used by the program\<close>

text \<open>
  \<^verbatim>\<open>str.split(sep)\<close> with a one-character separator: the string is cut at every occurrence
  of the separator, empty pieces are kept, and the empty string gives one empty piece.
\<close>

fun str_split :: "char \<Rightarrow> string \<Rightarrow> string list" where
  "str_split sep [] = [[]]"
| "str_split sep (c # cs) =
     (if c = sep then [] # str_split sep cs
      else (case str_split sep cs of
              [] \<Rightarrow> [[c]]
            | s # ss \<Rightarrow> (c # s) # ss))"

text \<open>
  \<^verbatim>\<open>os.path.join(a, b)\<close> for two components, as \<^verbatim>\<open>posixpath\<close> computes it: an absolute
  second component replaces the first, otherwise the two are joined with exactly one slash.
\<close>

definition path_join :: "string \<Rightarrow> string \<Rightarrow> string" where
  "path_join a b =
     (if b \<noteq> [] \<and> hd b = CHR ''/'' then b
      else if a = [] \<or> last a = CHR ''/'' then a @ b
      else a @ ''/'' @ b)"

section \<open>The store: database files, connections and statements\<close>

text \<open>
  A row of the table \<^verbatim>\<open>entries (text TEXT, color TEXT)\<close> is a pair of strings; a database is
  a finite map from table names to the rows of the table, in storage order.
\<close>

type_synonym entry = "string \<times> string"
type_synonym database = "string \<rightharpoonup> entry list"

text \<open>
  The world the program runs in: the committed content of the database file at each path (a
  path with no file holds the database without tables, which is what \<^verbatim>\<open>sqlite3.connect\<close>
  creates there), which paths \<^verbatim>\<open>sqlite3.connect\<close> can open at all, and the state of the
  module-level random generator as the sequence of numbers it is going to draw.
\<close>

record world =
  files :: "string \<Rightarrow> database"
  openable :: "string \<Rightarrow> bool"
  rng :: "nat \<Rightarrow> nat"

text \<open>
  A connection sees the committed content of its file plus its own uncommitted changes.
  \<open>in_txn\<close> tells whether the \<^verbatim>\<open>sqlite3\<close> module has opened a transaction, which it does
  before the first INSERT or DELETE and not before CREATE TABLE or SELECT.
\<close>

record connection =
  conn_path :: string
  pending :: database
  in_txn :: bool

definition connect :: "string \<Rightarrow> world \<Rightarrow> exn + connection" where
  "connect p w =
     (if openable w p then Inr \<lparr>conn_path = p, pending = files w p, in_txn = False\<rparr>
      else Inl OperationalError)"

text \<open>
  The five statements the program sends to \<^verbatim>\<open>cursor.execute\<close>. The table name that
  \<^verbatim>\<open>delete_sqlite_entries\<close> splices into its statement is taken as a table identifier.
\<close>

datatype statement =
    CreateTableIfNotExists string
  | SelectCountStar string
  | InsertInto string entry
  | SelectStar string
  | DeleteFrom string

text \<open>A row as \<^verbatim>\<open>fetchall()\<close> hands it out: the tuple of its two column values.\<close>

definition entry_row :: "entry \<Rightarrow> pyval list" where
  "entry_row e = [PStr (fst e), PStr (snd e)]"

text \<open>
  \<^verbatim>\<open>cursor.execute(stmt)\<close> followed by \<^verbatim>\<open>fetchall()\<close>: the rows of the result set, the
  connection and the world afterwards, or the exception raised (then nothing has changed).
  CREATE TABLE outside a transaction is committed at once; INSERT and DELETE change only the
  connection's view until \<open>commit\<close>. COUNT(*) returns one row holding the number of rows.
\<close>

fun execute :: "statement \<Rightarrow> connection \<Rightarrow> world
                  \<Rightarrow> exn + (pyval list list \<times> connection \<times> world)" where
  "execute (CreateTableIfNotExists t) conn w =
     (case pending conn t of
        Some rows \<Rightarrow> Inr ([], conn, w)
      | None \<Rightarrow>
          Inr ([], conn\<lparr>pending := (pending conn)(t \<mapsto> [])\<rparr>,
               if in_txn conn then w
               else w\<lparr>files := (files w)(conn_path conn := (files w (conn_path conn))(t \<mapsto> []))\<rparr>))"
| "execute (SelectCountStar t) conn w =
     (case pending conn t of
        None \<Rightarrow> Inl OperationalError
      | Some rows \<Rightarrow> Inr ([[PInt (int (length rows))]], conn, w))"
| "execute (InsertInto t e) conn w =
     (case pending conn t of
        None \<Rightarrow> Inl OperationalError
      | Some rows \<Rightarrow> Inr ([], conn\<lparr>pending := (pending conn)(t \<mapsto> rows @ [e]), in_txn := True\<rparr>, w))"
| "execute (SelectStar t) conn w =
     (case pending conn t of
        None \<Rightarrow> Inl OperationalError
      | Some rows \<Rightarrow> Inr (map entry_row rows, conn, w))"
| "execute (DeleteFrom t) conn w =
     (case pending conn t of
        None \<Rightarrow> Inl OperationalError
      | Some rows \<Rightarrow> Inr ([], conn\<lparr>pending := (pending conn)(t \<mapsto> []), in_txn := True\<rparr>, w))"

text \<open>\<^verbatim>\<open>conn.commit()\<close>: the connection's view becomes the committed content of its file.\<close>

definition commit :: "connection \<Rightarrow> world \<Rightarrow> world" where
  "commit conn w = w\<lparr>files := (files w)(conn_path conn := pending conn)\<rparr>"

text \<open>
  \<^verbatim>\<open>random.choice(seq)\<close>: the element at the next drawn number reduced below the length of
  the sequence; IndexError on the empty sequence. The generator moves on by one draw.
\<close>

definition random_choice :: "'a list \<Rightarrow> world \<Rightarrow> (exn + 'a) \<times> world" where
  "random_choice seq w =
     (if seq = [] then (Inl IndexError, w)
      else (Inr (seq ! (rng w 0 mod length seq)), w\<lparr>rng := (\<lambda>n. rng w (Suc n))\<rparr>))"

section \<open>The methods of \<^verbatim>\<open>SqliteApp\<close>\<close>

text \<open>
  Calls of \<^verbatim>\<open>Logger\<close> write a log line and change nothing else; they are left out. A method
  returns \<open>Inr v\<close> when it returns \<open>v\<close> and \<open>Inl e\<close> when the exception \<open>e\<close> leaves it.
\<close>

subsection \<open>\<^verbatim>\<open>init_sqlite3\<close>\<close>

text \<open>The loop of lines 90 to 97, run \<open>n\<close> times on the open connection.\<close>

fun insert_loop :: "nat \<Rightarrow> connection \<Rightarrow> world \<Rightarrow> (exn + connection) \<times> world" where
  "insert_loop 0 conn w = (Inr conn, w)"
| "insert_loop (Suc n) conn w =
     (case random_choice TEXTS w of
        (Inl e, w1) \<Rightarrow> (Inl e, w1)
      | (Inr txt, w1) \<Rightarrow>
          (case random_choice COLORS w1 of
             (Inl e, w2) \<Rightarrow> (Inl e, w2)
           | (Inr color, w2) \<Rightarrow>
               (case execute (InsertInto ''entries'' (txt, color)) conn w2 of
                  Inl e \<Rightarrow> (Inl e, w2)
                | Inr (rs, conn', w3) \<Rightarrow> insert_loop n conn' w3)))"

text \<open>Line 85: the number bound to \<^verbatim>\<open>count\<close> is the length of the fetched result set.\<close>

definition count_existing :: "connection \<Rightarrow> world \<Rightarrow> exn + (int \<times> connection \<times> world)" where
  "count_existing conn w =
     (case execute (SelectCountStar ''entries'') conn w of
        Inl e \<Rightarrow> Inl e
      | Inr (rows, conn', w') \<Rightarrow> Inr (int (length rows), conn', w'))"

text \<open>
  The body of the \<^verbatim>\<open>try\<close> block, lines 82 to 100. Leaving the \<^verbatim>\<open>with closing(...)\<close>
  blocks closes cursor and connection; what the connection had not committed is lost.
  \<open>cnt\<close> is the variable \<^verbatim>\<open>count\<close>; \<^verbatim>\<open>range(0, 101 - count)\<close> is empty when
  \<^verbatim>\<open>101 - count\<close> is not positive.
\<close>

definition init_body :: "string \<Rightarrow> world \<Rightarrow> (exn + unit) \<times> world" where
  "init_body sqlite_dir w =
     (case connect (path_join sqlite_dir DB_NAME) w of
        Inl e \<Rightarrow> (Inl e, w)
      | Inr conn \<Rightarrow>
          (case execute (CreateTableIfNotExists ''entries'') conn w of
             Inl e \<Rightarrow> (Inl e, w)
           | Inr (rs, conn1, w1) \<Rightarrow>
               (case count_existing conn1 w1 of
                  Inl e \<Rightarrow> (Inl e, w1)
                | Inr (cnt, conn2, w2) \<Rightarrow>
                    (case (if \<not> cnt \<ge> 100 then insert_loop (nat (101 - cnt)) conn2 w2
                           else (Inr conn2, w2)) of
                       (Inl e, w3) \<Rightarrow> (Inl e, w3)
                     | (Inr conn3, w3) \<Rightarrow> (Inr (), commit conn3 w3)))))"

text \<open>
  The method. With \<^verbatim>\<open>sqlite_dir is None\<close> line 79 evaluates the name \<^verbatim>\<open>logging\<close>, which
  the module neither imports nor defines, before the \<^verbatim>\<open>try\<close> block is entered. The bare
  \<^verbatim>\<open>except\<close> catches every exception of the body, and \<^verbatim>\<open>success\<close> is then still False.
\<close>

definition init_sqlite3 :: "string option \<Rightarrow> world \<Rightarrow> (exn + bool) \<times> world" where
  "init_sqlite3 sqlite_dir w =
     (case sqlite_dir of
        None \<Rightarrow> (Inl NameError, w)
      | Some d \<Rightarrow>
          (case init_body d w of
             (Inl e, w') \<Rightarrow> (Inr False, w')
           | (Inr u, w') \<Rightarrow> (Inr True, w')))"

subsection \<open>\<^verbatim>\<open>ingest_sqlite3\<close>\<close>

text \<open>The body of the \<^verbatim>\<open>try\<close> block, lines 134 to 137; nothing is written or committed.\<close>

definition ingest_body :: "string \<Rightarrow> world \<Rightarrow> exn + pyval list list" where
  "ingest_body sqlite_path w =
     (case connect sqlite_path w of
        Inl e \<Rightarrow> Inl e
      | Inr conn \<Rightarrow>
          (case execute (SelectStar ''entries'') conn w of
             Inl e \<Rightarrow> Inl e
           | Inr (lines, conn', w') \<Rightarrow> Inr lines))"

text \<open>\<^verbatim>\<open>entry_list\<close> starts as the empty list and keeps that value when the body raises.\<close>

definition ingest_sqlite3 :: "string \<Rightarrow> world \<Rightarrow> exn + pyval list list" where
  "ingest_sqlite3 sqlite_path w =
     (case ingest_body sqlite_path w of
        Inl e \<Rightarrow> Inr []
      | Inr entry_list \<Rightarrow> Inr entry_list)"

subsection \<open>\<^verbatim>\<open>delete_sqlite_entries\<close>\<close>

text \<open>The body of the \<^verbatim>\<open>try\<close> block, lines 146 to 154.\<close>

definition delete_body :: "string \<Rightarrow> string \<Rightarrow> world \<Rightarrow> (exn + unit) \<times> world" where
  "delete_body sqlite_path table_name w =
     (case connect sqlite_path w of
        Inl e \<Rightarrow> (Inl e, w)
      | Inr conn \<Rightarrow>
          (case execute (DeleteFrom table_name) conn w of
             Inl e \<Rightarrow> (Inl e, w)
           | Inr (rs, conn1, w1) \<Rightarrow> (Inr (), commit conn1 w1)))"

definition delete_sqlite_entries :: "string \<Rightarrow> string \<Rightarrow> world \<Rightarrow> (exn + bool) \<times> world" where
  "delete_sqlite_entries sqlite_path table_name w =
     (case delete_body sqlite_path table_name w of
        (Inl e, w') \<Rightarrow> (Inr False, w')
      | (Inr u, w') \<Rightarrow> (Inr True, w'))"

subsection \<open>\<^verbatim>\<open>load_button\<close>\<close>

text \<open>
  An \<^verbatim>\<open>EntryButton\<close> is represented by the two keyword arguments it is constructed from;
  the colour tuple is a list of Python values.
\<close>

record EntryButton =
  button_text :: string
  background_color :: "pyval list"

definition load_button :: "string \<times> string \<Rightarrow> EntryButton" where
  "load_button button_tuple =
     (let txt = fst button_tuple;
          color = map PStr (str_split CHR ''_'' (snd button_tuple)) @ [PInt 1]
      in \<lparr>button_text = txt, background_color = color\<rparr>)"

section \<open>Observations and reference functions\<close>

text \<open>The rows of table \<open>t\<close> in the committed file at path \<open>p\<close>; none when there is no such table.\<close>

definition rows_of :: "world \<Rightarrow> string \<Rightarrow> string \<Rightarrow> entry list" where
  "rows_of w p t = (case files w p t of None \<Rightarrow> [] | Some rows \<Rightarrow> rows)"

text \<open>
  The rows that \<open>n\<close> rounds of the loop draw from the generator \<open>g\<close>: each round takes
  one draw for the text and the next draw for the colour.
\<close>

fun seed_rows :: "nat \<Rightarrow> (nat \<Rightarrow> nat) \<Rightarrow> entry list" where
  "seed_rows 0 g = []"
| "seed_rows (Suc n) g =
     (TEXTS ! (g 0 mod length TEXTS), COLORS ! (g 1 mod length COLORS))
       # seed_rows n (\<lambda>k. g (Suc (Suc k)))"

text \<open>
  A client that sends one INSERT per element of a list over an open connection, the way the
  loop of \<^verbatim>\<open>init_sqlite3\<close> sends its statements; the first exception ends it.
\<close>

fun insert_entries :: "entry list \<Rightarrow> connection \<Rightarrow> world \<Rightarrow> exn + (connection \<times> world)" where
  "insert_entries [] conn w = Inr (conn, w)"
| "insert_entries (e # es) conn w =
     (case execute (InsertInto ''entries'' e) conn w of
        Inl x \<Rightarrow> Inl x
      | Inr (rs, conn', w') \<Rightarrow> insert_entries es conn' w')"

text \<open>
  The same client as a whole: open the file, send the INSERTs, commit, close. An exception
  leaves the committed content as it was.
\<close>

definition insert_and_commit :: "string \<Rightarrow> entry list \<Rightarrow> world \<Rightarrow> (exn + unit) \<times> world" where
  "insert_and_commit p es w =
     (case connect p w of
        Inl x \<Rightarrow> (Inl x, w)
      | Inr conn \<Rightarrow>
          (case insert_entries es conn w of
             Inl x \<Rightarrow> (Inl x, w)
           | Inr (conn', w') \<Rightarrow> (Inr (), commit conn' w')))"

text \<open>
  Two concrete worlds. In both only \<^verbatim>\<open>/data/sqlite/test.db\<close> can be opened. The fresh world
  has no database file yet; the stocked world holds 100 rows in \<^verbatim>\<open>entries\<close>.
\<close>

definition fresh_world :: world where
  "fresh_world =
     \<lparr>files = (\<lambda>p. Map.empty),
      openable = (\<lambda>p. p = ''/data/sqlite/test.db''),
      rng = (\<lambda>n. n)\<rparr>"

definition stocked_world :: world where
  "stocked_world =
     \<lparr>files = (\<lambda>p. if p = ''/data/sqlite/test.db''
                     then [''entries'' \<mapsto> replicate 100 (''Lorem Ipsum'', ''1_1_1'')]
                     else Map.empty),
      openable = (\<lambda>p. p = ''/data/sqlite/test.db''),
      rng = (\<lambda>n. n)\<rparr>"

section \<open>Auxiliary facts\<close>

lemma str_split_nonempty: "str_split sep s \<noteq> []"
  by (induction s) (auto split: list.splits)

lemma length_str_split: "length (str_split sep s) = Suc (count_list s sep)"
  by (induction s) (auto split: list.splits simp: str_split_nonempty)

lemma data_path: "path_join ''/data/sqlite'' DB_NAME = ''/data/sqlite/test.db''"
  by (simp add: path_join_def DB_NAME_def)

lemma TEXTS_nonempty: "TEXTS \<noteq> []"
  by (simp add: TEXTS_def)

lemma COLORS_nonempty: "COLORS \<noteq> []"
  by (simp add: COLORS_def)

lemma random_choice_TEXTS:
  "random_choice TEXTS w
     = (Inr (TEXTS ! (rng w 0 mod length TEXTS)), w\<lparr>rng := (\<lambda>n. rng w (Suc n))\<rparr>)"
  by (simp add: random_choice_def TEXTS_nonempty)

lemma random_choice_COLORS:
  "random_choice COLORS w
     = (Inr (COLORS ! (rng w 0 mod length COLORS)), w\<lparr>rng := (\<lambda>n. rng w (Suc n))\<rparr>)"
  by (simp add: random_choice_def COLORS_nonempty)

lemma seed_rows_length: "length (seed_rows n g) = n"
  by (induction n arbitrary: g) auto

lemma seed_rows_nth:
  "i < n \<Longrightarrow> seed_rows n g ! i
     = (TEXTS ! (g (2 * i) mod length TEXTS), COLORS ! (g (2 * i + 1) mod length COLORS))"
proof (induction n arbitrary: g i)
  case 0
  then show ?case by simp
next
  case (Suc n)
  show ?case
  proof (cases i)
    case 0
    then show ?thesis by simp
  next
    case (Suc j)
    with Suc.prems have "j < n" by simp
    from Suc.IH [OF this] Suc show ?thesis by simp
  qed
qed

text \<open>One round of the loop on a connection that sees the table.\<close>

lemma insert_loop_step:
  "pending conn ''entries'' = Some rows \<Longrightarrow>
   insert_loop (Suc n) conn w =
     insert_loop n
       (conn\<lparr>pending := (pending conn)(''entries'' \<mapsto>
                 rows @ [(TEXTS ! (rng w 0 mod length TEXTS), COLORS ! (rng w 1 mod length COLORS))]),
              in_txn := True\<rparr>)
       (w\<lparr>rng := (\<lambda>k. rng w (Suc (Suc k)))\<rparr>)"
  by (simp add: random_choice_TEXTS random_choice_COLORS)

text \<open>The whole loop: it never raises, appends \<open>n\<close> rows and uses up \<open>2 * n\<close> draws.\<close>

lemma insert_loop_result:
  "pending conn ''entries'' = Some rows \<Longrightarrow>
   insert_loop n conn w =
     (Inr (conn\<lparr>pending := (pending conn)(''entries'' \<mapsto> rows @ seed_rows n (rng w)),
                in_txn := in_txn conn \<or> 0 < n\<rparr>),
      w\<lparr>rng := (\<lambda>k. rng w (k + 2 * n))\<rparr>)"
proof (induction n arbitrary: conn w rows)
  case 0
  then show ?case by (simp add: map_upd_triv)
next
  case (Suc n)
  let ?e = "(TEXTS ! (rng w 0 mod length TEXTS), COLORS ! (rng w 1 mod length COLORS))"
  let ?conn1 = "conn\<lparr>pending := (pending conn)(''entries'' \<mapsto> rows @ [?e]), in_txn := True\<rparr>"
  let ?w2 = "w\<lparr>rng := (\<lambda>k. rng w (Suc (Suc k)))\<rparr>"
  have p1: "pending ?conn1 ''entries'' = Some (rows @ [?e])" by simp
  have "insert_loop (Suc n) conn w = insert_loop n ?conn1 ?w2"
    using Suc.prems by (rule insert_loop_step)
  also have "\<dots> =
     (Inr (?conn1\<lparr>pending := (pending ?conn1)(''entries'' \<mapsto>
                      (rows @ [?e]) @ seed_rows n (rng ?w2)),
                   in_txn := in_txn ?conn1 \<or> 0 < n\<rparr>),
      ?w2\<lparr>rng := (\<lambda>k. rng ?w2 (k + 2 * n))\<rparr>)"
    using p1 by (rule Suc.IH)
  also have "\<dots> =
     (Inr (conn\<lparr>pending := (pending conn)(''entries'' \<mapsto> rows @ seed_rows (Suc n) (rng w)),
                in_txn := in_txn conn \<or> 0 < Suc n\<rparr>),
      w\<lparr>rng := (\<lambda>k. rng w (k + 2 * Suc n))\<rparr>)"
    by simp
  finally show ?case .
qed

lemma count_existing_one:
  "count_existing conn w = Inr (n, conn', w') \<Longrightarrow> n = 1 \<and> conn' = conn \<and> w' = w"
  by (auto simp: count_existing_def split: option.splits)

lemma count_existing_result:
  "pending conn ''entries'' = Some rows \<Longrightarrow> count_existing conn w = Inr (1, conn, w)"
  by (simp add: count_existing_def)

lemma init_body_unopenable:
  "\<not> openable w (path_join d DB_NAME) \<Longrightarrow> init_body d w = (Inl OperationalError, w)"
  by (simp add: init_body_def connect_def)

text \<open>
  What the body does on a path that can be opened: 100 rows are appended to the table
  (created first when missing), whatever it held, and the change is committed.
\<close>

lemma init_body_openable:
  assumes "openable w (path_join d DB_NAME)"
  shows "init_body d w =
           (Inr (),
            w\<lparr>files := (files w)(path_join d DB_NAME :=
                       (files w (path_join d DB_NAME))(''entries'' \<mapsto>
                          rows_of w (path_join d DB_NAME) ''entries'' @ seed_rows 100 (rng w))),
              rng := (\<lambda>k. rng w (k + 200))\<rparr>)"
proof (cases "files w (path_join d DB_NAME) ''entries''")
  case None
  let ?p = "path_join d DB_NAME"
  let ?conn1 = "\<lparr>conn_path = ?p, pending = (files w ?p)(''entries'' \<mapsto> []), in_txn = False\<rparr>"
  let ?w1 = "w\<lparr>files := (files w)(?p := (files w ?p)(''entries'' \<mapsto> []))\<rparr>"
  have c: "connect ?p w = Inr \<lparr>conn_path = ?p, pending = files w ?p, in_txn = False\<rparr>"
    using assms by (simp add: connect_def)
  have cr: "execute (CreateTableIfNotExists ''entries'')
              \<lparr>conn_path = ?p, pending = files w ?p, in_txn = False\<rparr> w = Inr ([], ?conn1, ?w1)"
    using None by simp
  have p1: "pending ?conn1 ''entries'' = Some []" by simp
  have ce: "count_existing ?conn1 ?w1 = Inr (1, ?conn1, ?w1)"
    using p1 by (rule count_existing_result)
  have il: "insert_loop 100 ?conn1 ?w1 =
     (Inr (?conn1\<lparr>pending := (pending ?conn1)(''entries'' \<mapsto> [] @ seed_rows 100 (rng ?w1)),
                in_txn := in_txn ?conn1 \<or> 0 < (100::nat)\<rparr>),
      ?w1\<lparr>rng := (\<lambda>k. rng ?w1 (k + 2 * 100))\<rparr>)"
    using p1 by (rule insert_loop_result)
  show ?thesis
    unfolding init_body_def c
    by (simp only: cr ce sum.case prod.case) (simp add: il commit_def rows_of_def None)
next
  case (Some rows)
  let ?p = "path_join d DB_NAME"
  let ?conn1 = "\<lparr>conn_path = ?p, pending = files w ?p, in_txn = False\<rparr>"
  have c: "connect ?p w = Inr ?conn1"
    using assms by (simp add: connect_def)
  have cr: "execute (CreateTableIfNotExists ''entries'') ?conn1 w = Inr ([], ?conn1, w)"
    using Some by simp
  have p1: "pending ?conn1 ''entries'' = Some rows" using Some by simp
  have ce: "count_existing ?conn1 w = Inr (1, ?conn1, w)"
    using p1 by (rule count_existing_result)
  have il: "insert_loop 100 ?conn1 w =
     (Inr (?conn1\<lparr>pending := (pending ?conn1)(''entries'' \<mapsto> rows @ seed_rows 100 (rng w)),
                in_txn := in_txn ?conn1 \<or> 0 < (100::nat)\<rparr>),
      w\<lparr>rng := (\<lambda>k. rng w (k + 2 * 100))\<rparr>)"
    using p1 by (rule insert_loop_result)
  show ?thesis
    unfolding init_body_def c
    by (simp only: cr ce sum.case prod.case) (simp add: il commit_def rows_of_def Some)
qed

lemma init_sqlite3_unopenable:
  "\<not> openable w (path_join d DB_NAME) \<Longrightarrow> init_sqlite3 (Some d) w = (Inr False, w)"
  by (simp add: init_sqlite3_def init_body_unopenable)

lemma init_sqlite3_openable:
  "openable w (path_join d DB_NAME) \<Longrightarrow>
   init_sqlite3 (Some d) w =
     (Inr True,
      w\<lparr>files := (files w)(path_join d DB_NAME :=
                 (files w (path_join d DB_NAME))(''entries'' \<mapsto>
                    rows_of w (path_join d DB_NAME) ''entries'' @ seed_rows 100 (rng w))),
        rng := (\<lambda>k. rng w (k + 200))\<rparr>)"
  by (simp add: init_sqlite3_def init_body_openable)

text \<open>The table after \<^verbatim>\<open>init_sqlite3\<close>, in both cases.\<close>

lemma rows_after_init:
  "rows_of (snd (init_sqlite3 (Some d) w)) (path_join d DB_NAME) ''entries'' =
     rows_of w (path_join d DB_NAME) ''entries''
       @ (if openable w (path_join d DB_NAME) then seed_rows 100 (rng w) else [])"
  by (simp add: init_sqlite3_unopenable init_sqlite3_openable rows_of_def)

lemma init_sqlite3_Some_returns_bool:
  "fst (init_sqlite3 (Some d) w) = Inr (openable w (path_join d DB_NAME))"
  by (cases "openable w (path_join d DB_NAME)")
     (simp_all add: init_sqlite3_unopenable init_sqlite3_openable)

text \<open>What the other two methods compute, in closed form.\<close>

lemma ingest_sqlite3_result:
  "ingest_sqlite3 p w = Inr (if openable w p then map entry_row (rows_of w p ''entries'') else [])"
  by (simp add: ingest_sqlite3_def ingest_body_def connect_def rows_of_def split: option.splits)

lemma ingest_body_fails_iff:
  "(\<exists>e. ingest_body p w = Inl e) \<longleftrightarrow> (\<not> openable w p \<or> files w p ''entries'' = None)"
  by (auto simp: ingest_body_def connect_def split: option.splits)

lemma delete_result:
  "delete_sqlite_entries p t w =
     (if openable w p \<and> files w p t \<noteq> None
      then (Inr True, w\<lparr>files := (files w)(p := (files w p)(t \<mapsto> []))\<rparr>)
      else (Inr False, w))"
  by (auto simp: delete_sqlite_entries_def delete_body_def connect_def commit_def
           split: option.splits)

text \<open>Every drawn row comes from the two palettes.\<close>

lemma nth_mem_TEXTS: "TEXTS ! (k mod length TEXTS) \<in> set TEXTS"
  by (simp add: TEXTS_nonempty)

lemma nth_mem_COLORS: "COLORS ! (k mod length COLORS) \<in> set COLORS"
  by (simp add: COLORS_nonempty)

lemma seed_rows_palette:
  "e \<in> set (seed_rows n g) \<Longrightarrow> fst e \<in> set TEXTS \<and> snd e \<in> set COLORS"
proof (induction n arbitrary: g)
  case 0
  then show ?case by simp
next
  case (Suc n)
  then show ?case
    using nth_mem_TEXTS [of "g 0"] nth_mem_COLORS [of "g 1"] by auto
qed

text \<open>The inserting client: it appends its rows in order, or fails on a missing table.\<close>

lemma insert_entries_result:
  "pending conn ''entries'' = Some rows \<Longrightarrow>
   insert_entries es conn w =
     Inr (conn\<lparr>pending := (pending conn)(''entries'' \<mapsto> rows @ es),
               in_txn := in_txn conn \<or> es \<noteq> []\<rparr>, w)"
proof (induction es arbitrary: conn rows)
  case Nil
  then show ?case by (simp add: map_upd_triv)
next
  case (Cons e es)
  let ?conn1 = "conn\<lparr>pending := (pending conn)(''entries'' \<mapsto> rows @ [e]), in_txn := True\<rparr>"
  have p1: "pending ?conn1 ''entries'' = Some (rows @ [e])" by simp
  have "insert_entries (e # es) conn w = insert_entries es ?conn1 w"
    using Cons.prems by simp
  also have "\<dots> = Inr (?conn1\<lparr>pending := (pending ?conn1)(''entries'' \<mapsto> (rows @ [e]) @ es),
               in_txn := in_txn ?conn1 \<or> es \<noteq> []\<rparr>, w)"
    using p1 by (rule Cons.IH)
  also have "\<dots> = Inr (conn\<lparr>pending := (pending conn)(''entries'' \<mapsto> rows @ e # es),
               in_txn := in_txn conn \<or> e # es \<noteq> []\<rparr>, w)"
    by simp
  finally show ?case .
qed

lemma insert_entries_no_table:
  "pending conn ''entries'' = None \<Longrightarrow>
   insert_entries es conn w = (if es = [] then Inr (conn, w) else Inl OperationalError)"
  by (cases es) simp_all

lemma insert_and_commit_result:
  "insert_and_commit p es w =
     (if \<not> openable w p then (Inl OperationalError, w)
      else case files w p ''entries'' of
             None \<Rightarrow> if es = [] then (Inr (), w) else (Inl OperationalError, w)
           | Some rows \<Rightarrow> (Inr (), w\<lparr>files := (files w)(p := (files w p)(''entries'' \<mapsto> rows @ es))\<rparr>))"
proof (cases "openable w p")
  case False
  then show ?thesis by (simp add: insert_and_commit_def connect_def)
next
  case True
  let ?conn = "\<lparr>conn_path = p, pending = files w p, in_txn = False\<rparr>"
  have c: "connect p w = Inr ?conn" using True by (simp add: connect_def)
  show ?thesis
  proof (cases "files w p ''entries''")
    case None
    then have "pending ?conn ''entries'' = None" by simp
    from insert_entries_no_table [OF this, of es w] True None c
    show ?thesis by (simp add: insert_and_commit_def commit_def)
  next
    case (Some rows)
    then have "pending ?conn ''entries'' = Some rows" by simp
    from insert_entries_result [OF this, of es w] True Some c
    show ?thesis by (simp add: insert_and_commit_def commit_def)
  qed
qed

lemma rows_after_insert:
  assumes "insert_and_commit p es w = (Inr (), w')"
  shows "openable w' p \<and> openable w p
         \<and> rows_of w' p ''entries'' = rows_of w p ''entries'' @ es"
  using assms
  by (auto simp: insert_and_commit_result rows_of_def split: if_splits option.splits)

text \<open>Distinct entries are listed as distinct rows, so counting rows counts entries.\<close>

lemma entry_row_eq_iff: "entry_row a = entry_row b \<longleftrightarrow> a = b"
  by (auto simp: entry_row_def prod_eq_iff)

lemma count_entry_rows:
  "count (mset (map entry_row es)) (entry_row e) = count (mset es) e"
  by (induction es) (simp_all add: entry_row_eq_iff)

section \<open>The claims\<close>

text \<open>
  C1 (row counts of \<^verbatim>\<open>init_sqlite3\<close>, evaluated). On a fresh file, whose table has 0 rows,
  \<^verbatim>\<open>init_sqlite3\<close> returns True and leaves 100 rows, not 101; on a table that already has
  100 rows it returns True and leaves 200 rows, so it does insert. The number the method
  compares with 100 is the length of the result set of the COUNT query, not the count in it.
\<close>

theorem C1_init_row_counts:
  "fst (init_sqlite3 (Some ''/data/sqlite'') fresh_world) = Inr True
   \<and> length (rows_of fresh_world ''/data/sqlite/test.db'' ''entries'') = 0
   \<and> length (rows_of (snd (init_sqlite3 (Some ''/data/sqlite'') fresh_world))
                ''/data/sqlite/test.db'' ''entries'') = 100
   \<and> fst (init_sqlite3 (Some ''/data/sqlite'') stocked_world) = Inr True
   \<and> length (rows_of stocked_world ''/data/sqlite/test.db'' ''entries'') = 100
   \<and> length (rows_of (snd (init_sqlite3 (Some ''/data/sqlite'') stocked_world))
                ''/data/sqlite/test.db'' ''entries'') = 200"
proof -
  have f: "openable fresh_world (path_join ''/data/sqlite'' DB_NAME)"
    by (simp add: data_path fresh_world_def)
  have s: "openable stocked_world (path_join ''/data/sqlite'' DB_NAME)"
    by (simp add: data_path stocked_world_def)
  have f0: "rows_of fresh_world ''/data/sqlite/test.db'' ''entries'' = []"
    by (simp add: rows_of_def fresh_world_def)
  have s0: "length (rows_of stocked_world ''/data/sqlite/test.db'' ''entries'') = 100"
    by (simp add: rows_of_def stocked_world_def)
  have f1: "length (rows_of (snd (init_sqlite3 (Some ''/data/sqlite'') fresh_world))
                ''/data/sqlite/test.db'' ''entries'') = 100"
    using rows_after_init [of "''/data/sqlite''" fresh_world] f
    by (simp add: data_path f0 seed_rows_length)
  have s1: "length (rows_of (snd (init_sqlite3 (Some ''/data/sqlite'') stocked_world))
                ''/data/sqlite/test.db'' ''entries'') = 200"
    using rows_after_init [of "''/data/sqlite''" stocked_world] s
    by (simp add: data_path s0 seed_rows_length)
  show ?thesis
    using f s f0 s0 f1 s1 by (simp add: init_sqlite3_Some_returns_bool)
qed

text \<open>
  C2 (the computed count is always 1). Whatever the table holds, the number that line 85 binds
  to \<^verbatim>\<open>count\<close> is 1; hence on every path that can be opened \<^verbatim>\<open>init_sqlite3\<close> runs the
  loop \<open>101 - 1 = 100\<close> times and the table ends with exactly 100 rows more than it had.
\<close>

theorem C2_count_is_one_and_100_inserts:
  "(count_existing conn w = Inr (n, conn', w') \<longrightarrow> n = 1)
   \<and> (openable w (path_join d DB_NAME) \<longrightarrow>
        length (rows_of (snd (init_sqlite3 (Some d) w)) (path_join d DB_NAME) ''entries'')
          = length (rows_of w (path_join d DB_NAME) ''entries'') + 100)"
  using count_existing_one [of conn w n conn' w']
  by (simp add: rows_after_init seed_rows_length)

theorem C2_count_is_one_and_100_inserts_witness:
  "count_existing \<lparr>conn_path = ''/data/sqlite/test.db'',
                    pending = files stocked_world ''/data/sqlite/test.db'',
                    in_txn = False\<rparr> stocked_world
     = Inr (1, \<lparr>conn_path = ''/data/sqlite/test.db'',
                 pending = files stocked_world ''/data/sqlite/test.db'',
                 in_txn = False\<rparr>, stocked_world)
   \<and> openable stocked_world (path_join ''/data/sqlite'' DB_NAME)
   \<and> length (rows_of stocked_world (path_join ''/data/sqlite'' DB_NAME) ''entries'') = 100
   \<and> length (rows_of (snd (init_sqlite3 (Some ''/data/sqlite'') stocked_world))
                (path_join ''/data/sqlite'' DB_NAME) ''entries'') = 200"
proof -
  have o: "openable stocked_world (path_join ''/data/sqlite'' DB_NAME)"
    by (simp add: data_path stocked_world_def)
  have l: "length (rows_of stocked_world (path_join ''/data/sqlite'' DB_NAME) ''entries'') = 100"
    by (simp add: data_path rows_of_def stocked_world_def)
  have c: "count_existing \<lparr>conn_path = ''/data/sqlite/test.db'',
                    pending = files stocked_world ''/data/sqlite/test.db'',
                    in_txn = False\<rparr> stocked_world
     = Inr (1, \<lparr>conn_path = ''/data/sqlite/test.db'',
                 pending = files stocked_world ''/data/sqlite/test.db'',
                 in_txn = False\<rparr>, stocked_world)"
    by (simp add: count_existing_def stocked_world_def)
  from C2_count_is_one_and_100_inserts
         [of "\<lparr>conn_path = ''/data/sqlite/test.db'',
                pending = files stocked_world ''/data/sqlite/test.db'', in_txn = False\<rparr>"
             stocked_world 1
             "\<lparr>conn_path = ''/data/sqlite/test.db'',
                pending = files stocked_world ''/data/sqlite/test.db'', in_txn = False\<rparr>"
             stocked_world "''/data/sqlite''"]
  show ?thesis using o l c by simp
qed

text \<open>
  C3 (projection of the sample entry, amended). For the entry
  \<^verbatim>\<open>("Lorem Ipsum", "1_0.0_0.0")\<close>, \<^verbatim>\<open>load_button\<close> pairs the text with the 4-tuple
  \<^verbatim>\<open>("1", "0.0", "0.0", 1)\<close>: the three channel strings followed by the integer 1.
\<close>

theorem C3_load_button_lorem:
  "load_button (''Lorem Ipsum'', ''1_0.0_0.0'')
     = \<lparr>button_text = ''Lorem Ipsum'',
        background_color = [PStr ''1'', PStr ''0.0'', PStr ''0.0'', PInt 1]\<rparr>"
  by (simp add: load_button_def)

text \<open>
  C3, as stated, asks for the string \<^verbatim>\<open>"1"\<close> in the fourth place; the method does not
  produce that tuple.
\<close>

theorem C3_all_strings_counterexample:
  "load_button (''Lorem Ipsum'', ''1_0.0_0.0'')
     \<noteq> \<lparr>button_text = ''Lorem Ipsum'',
        background_color = [PStr ''1'', PStr ''0.0'', PStr ''0.0'', PStr ''1'']\<rparr>"
  by (simp add: load_button_def)

text \<open>
  C4 (\<^verbatim>\<open>init_sqlite3\<close> on None, evaluated). Called with \<^verbatim>\<open>sqlite_dir = None\<close> the method
  does not return a boolean: NameError leaves it, in every world, and the world is unchanged.
\<close>

theorem C4_none_raises: "init_sqlite3 None w = (Inl NameError, w)"
  by (simp add: init_sqlite3_def)

text \<open>
  C5 (\<^verbatim>\<open>ingest_sqlite3\<close> on failure). For every path and every world the method returns a
  list and no exception leaves it; whenever its body fails, in particular when the file cannot
  be opened or holds no table \<^verbatim>\<open>entries\<close>, the list it returns is empty.
\<close>

theorem C5_ingest_failure_gives_empty:
  "(\<exists>rows. ingest_sqlite3 p w = Inr rows)
   \<and> (ingest_body p w = Inl e \<longrightarrow> ingest_sqlite3 p w = Inr [])
   \<and> (\<not> openable w p \<longrightarrow>
        ingest_body p w = Inl OperationalError \<and> ingest_sqlite3 p w = Inr [])
   \<and> (files w p ''entries'' = None \<longrightarrow>
        ingest_body p w = Inl OperationalError \<and> ingest_sqlite3 p w = Inr [])"
  by (auto simp: ingest_sqlite3_def ingest_body_def connect_def split: option.splits sum.splits)

theorem C5_ingest_failure_gives_empty_witness:
  "\<not> openable fresh_world ''/nowhere/test.db''
   \<and> files fresh_world ''/nowhere/test.db'' ''entries'' = None
   \<and> ingest_body ''/nowhere/test.db'' fresh_world = Inl OperationalError
   \<and> ingest_sqlite3 ''/nowhere/test.db'' fresh_world = Inr []"
  using C5_ingest_failure_gives_empty [of "''/nowhere/test.db''" fresh_world OperationalError]
  by (simp add: fresh_world_def)

text \<open>
  C6 (clearing is total and idempotent). \<^verbatim>\<open>delete_sqlite_entries\<close> always returns a
  boolean. After it has returned True for the table \<^verbatim>\<open>entries\<close>, \<^verbatim>\<open>ingest_sqlite3\<close> returns
  the empty list, the table still exists and holds no row (COUNT(*) yields 0), and a second
  call returns True again and changes nothing.
\<close>

theorem C6_clear_all_idempotent:
  "(\<exists>b w'. delete_sqlite_entries p t w = (Inr b, w'))
   \<and> (delete_sqlite_entries p ''entries'' w = (Inr True, w1) \<longrightarrow>
        ingest_sqlite3 p w1 = Inr []
        \<and> files w1 p ''entries'' = Some []
        \<and> (\<exists>conn. connect p w1 = Inr conn
               \<and> execute (SelectCountStar ''entries'') conn w1 = Inr ([[PInt 0]], conn, w1))
        \<and> delete_sqlite_entries p ''entries'' w1 = (Inr True, w1))"
proof (intro conjI impI)
  show "\<exists>b w'. delete_sqlite_entries p t w = (Inr b, w')"
    by (auto simp: delete_result)
next
  assume a: "delete_sqlite_entries p ''entries'' w = (Inr True, w1)"
  then have o: "openable w p" and w1: "w1 = w\<lparr>files := (files w)(p := (files w p)(''entries'' \<mapsto> []))\<rparr>"
    by (auto simp: delete_result split: if_splits)
  show "ingest_sqlite3 p w1 = Inr []"
    using o by (simp add: w1 ingest_sqlite3_result rows_of_def)
  show "files w1 p ''entries'' = Some []"
    by (simp add: w1)
  show "\<exists>conn. connect p w1 = Inr conn
               \<and> execute (SelectCountStar ''entries'') conn w1 = Inr ([[PInt 0]], conn, w1)"
    using o by (simp add: w1 connect_def)
  show "delete_sqlite_entries p ''entries'' w1 = (Inr True, w1)"
    using o by (simp add: w1 delete_result)
qed

theorem C6_clear_all_idempotent_witness:
  "delete_sqlite_entries ''/data/sqlite/test.db'' ''entries'' stocked_world
     = (Inr True, snd (delete_sqlite_entries ''/data/sqlite/test.db'' ''entries'' stocked_world))
   \<and> length (rows_of stocked_world ''/data/sqlite/test.db'' ''entries'') = 100
   \<and> ingest_sqlite3 ''/data/sqlite/test.db''
        (snd (delete_sqlite_entries ''/data/sqlite/test.db'' ''entries'' stocked_world)) = Inr []
   \<and> delete_sqlite_entries ''/data/sqlite/test.db'' ''entries''
        (snd (delete_sqlite_entries ''/data/sqlite/test.db'' ''entries'' stocked_world))
      = (Inr True, snd (delete_sqlite_entries ''/data/sqlite/test.db'' ''entries'' stocked_world))"
proof -
  have h: "delete_sqlite_entries ''/data/sqlite/test.db'' ''entries'' stocked_world
     = (Inr True, snd (delete_sqlite_entries ''/data/sqlite/test.db'' ''entries'' stocked_world))"
    by (simp add: delete_sqlite_entries_def delete_body_def connect_def stocked_world_def)
  have l: "length (rows_of stocked_world ''/data/sqlite/test.db'' ''entries'') = 100"
    by (simp add: rows_of_def stocked_world_def)
  from C6_clear_all_idempotent
         [of "''/data/sqlite/test.db''" "''entries''" stocked_world
             "snd (delete_sqlite_entries ''/data/sqlite/test.db'' ''entries'' stocked_world)"] h l
  show ?thesis by blast
qed

text \<open>
  C7 (the top-up only adds). After \<^verbatim>\<open>init_sqlite3\<close>, whether it succeeded or not, the table
  \<^verbatim>\<open>entries\<close> consists of its former rows, in their order, followed by new ones: every
  former row is still present, as often as before at least, and no other table and no other
  file has changed.
\<close>

theorem C7_top_up_additive:
  "(\<exists>new. rows_of (snd (init_sqlite3 (Some d) w)) (path_join d DB_NAME) ''entries''
            = rows_of w (path_join d DB_NAME) ''entries'' @ new)
   \<and> (r \<in> set (rows_of w (path_join d DB_NAME) ''entries'') \<longrightarrow>
        r \<in> set (rows_of (snd (init_sqlite3 (Some d) w)) (path_join d DB_NAME) ''entries''))
   \<and> count (mset (rows_of w (path_join d DB_NAME) ''entries'')) r
        \<le> count (mset (rows_of (snd (init_sqlite3 (Some d) w)) (path_join d DB_NAME) ''entries'')) r
   \<and> ((q, t) \<noteq> (path_join d DB_NAME, ''entries'') \<longrightarrow>
        files (snd (init_sqlite3 (Some d) w)) q t = files w q t)"
proof (intro conjI impI)
  show "\<exists>new. rows_of (snd (init_sqlite3 (Some d) w)) (path_join d DB_NAME) ''entries''
            = rows_of w (path_join d DB_NAME) ''entries'' @ new"
    by (simp add: rows_after_init)
  show "count (mset (rows_of w (path_join d DB_NAME) ''entries'')) r
        \<le> count (mset (rows_of (snd (init_sqlite3 (Some d) w)) (path_join d DB_NAME) ''entries'')) r"
    by (simp add: rows_after_init)
next
  assume "r \<in> set (rows_of w (path_join d DB_NAME) ''entries'')"
  then show "r \<in> set (rows_of (snd (init_sqlite3 (Some d) w)) (path_join d DB_NAME) ''entries'')"
    by (simp add: rows_after_init)
next
  assume "(q, t) \<noteq> (path_join d DB_NAME, ''entries'')"
  then show "files (snd (init_sqlite3 (Some d) w)) q t = files w q t"
    by (cases "openable w (path_join d DB_NAME)")
       (auto simp: init_sqlite3_unopenable init_sqlite3_openable)
qed

theorem C7_top_up_additive_witness:
  "(''Lorem Ipsum'', ''1_1_1'') \<in> set (rows_of stocked_world (path_join ''/data/sqlite'' DB_NAME) ''entries'')
   \<and> (''/data/sqlite/test.db'', ''other'') \<noteq> (path_join ''/data/sqlite'' DB_NAME, ''entries'')
   \<and> (''Lorem Ipsum'', ''1_1_1'')
        \<in> set (rows_of (snd (init_sqlite3 (Some ''/data/sqlite'') stocked_world))
                  (path_join ''/data/sqlite'' DB_NAME) ''entries'')
   \<and> 100 \<le> count (mset (rows_of (snd (init_sqlite3 (Some ''/data/sqlite'') stocked_world))
                  (path_join ''/data/sqlite'' DB_NAME) ''entries'')) (''Lorem Ipsum'', ''1_1_1'')
   \<and> files (snd (init_sqlite3 (Some ''/data/sqlite'') stocked_world)) ''/data/sqlite/test.db'' ''other''
       = None"
proof -
  have m: "(''Lorem Ipsum'', ''1_1_1'') \<in> set (rows_of stocked_world (path_join ''/data/sqlite'' DB_NAME) ''entries'')"
    by (simp add: data_path rows_of_def stocked_world_def)
  have c: "count (mset (rows_of stocked_world (path_join ''/data/sqlite'' DB_NAME) ''entries''))
             (''Lorem Ipsum'', ''1_1_1'') = 100"
    by (simp add: data_path rows_of_def stocked_world_def)
  have n: "(''/data/sqlite/test.db'', ''other'') \<noteq> (path_join ''/data/sqlite'' DB_NAME, ''entries'')"
    by simp
  have f: "files stocked_world ''/data/sqlite/test.db'' ''other'' = None"
    by (simp add: stocked_world_def)
  from C7_top_up_additive [of "''/data/sqlite''" stocked_world "(''Lorem Ipsum'', ''1_1_1'')"
                              "''/data/sqlite/test.db''" "''other''"] m c n f
  show ?thesis by simp
qed

text \<open>
  C8 (seeded rows come from the palettes). On a path that can be opened \<^verbatim>\<open>init_sqlite3\<close>
  appends 100 rows; the text of the \<open>i\<close>-th is the element of \<open>TEXTS\<close> chosen by draw
  \<open>2 * i\<close> and its colour the element of \<open>COLORS\<close> chosen by draw \<open>2 * i + 1\<close>, so each
  is taken from its palette by a draw of its own. When the table was empty or missing before,
  every row that \<^verbatim>\<open>ingest_sqlite3\<close> lists afterwards is a palette text with a palette colour.
\<close>

theorem C8_seed_rows_from_palettes:
  "openable w (path_join d DB_NAME) \<longrightarrow>
     (\<exists>new.
        rows_of (snd (init_sqlite3 (Some d) w)) (path_join d DB_NAME) ''entries''
          = rows_of w (path_join d DB_NAME) ''entries'' @ new
        \<and> length new = 100
        \<and> (\<forall>i<100. new ! i = (TEXTS ! (rng w (2 * i) mod length TEXTS),
                                  COLORS ! (rng w (2 * i + 1) mod length COLORS)))
        \<and> (\<forall>e \<in> set new. fst e \<in> set TEXTS \<and> snd e \<in> set COLORS)
        \<and> (rows_of w (path_join d DB_NAME) ''entries'' = [] \<longrightarrow>
             (\<exists>listed.
                ingest_sqlite3 (path_join d DB_NAME) (snd (init_sqlite3 (Some d) w)) = Inr listed
                \<and> (\<forall>row \<in> set listed.
                      \<exists>t \<in> set TEXTS. \<exists>c \<in> set COLORS. row = [PStr t, PStr c]))))"
proof
  assume o: "openable w (path_join d DB_NAME)"
  let ?p = "path_join d DB_NAME"
  let ?w' = "snd (init_sqlite3 (Some d) w)"
  let ?new = "seed_rows 100 (rng w)"
  have r: "rows_of ?w' ?p ''entries'' = rows_of w ?p ''entries'' @ ?new"
    using o by (simp add: rows_after_init)
  have o': "openable ?w' ?p"
    using o by (simp add: init_sqlite3_openable)
  have pal: "\<forall>e \<in> set ?new. fst e \<in> set TEXTS \<and> snd e \<in> set COLORS"
    using seed_rows_palette by blast
  have idx: "\<forall>i<100. ?new ! i = (TEXTS ! (rng w (2 * i) mod length TEXTS),
                                  COLORS ! (rng w (2 * i + 1) mod length COLORS))"
    by (simp add: seed_rows_nth)
  have lst: "rows_of w ?p ''entries'' = [] \<longrightarrow>
             (\<exists>listed. ingest_sqlite3 ?p ?w' = Inr listed
                \<and> (\<forall>row \<in> set listed.
                      \<exists>t \<in> set TEXTS. \<exists>c \<in> set COLORS. row = [PStr t, PStr c]))"
  proof
    assume e: "rows_of w ?p ''entries'' = []"
    have "ingest_sqlite3 ?p ?w' = Inr (map entry_row ?new)"
      using o' r e by (simp add: ingest_sqlite3_result)
    moreover have "\<forall>row \<in> set (map entry_row ?new).
                      \<exists>t \<in> set TEXTS. \<exists>c \<in> set COLORS. row = [PStr t, PStr c]"
      using pal by (auto simp: entry_row_def)
    ultimately show "\<exists>listed. ingest_sqlite3 ?p ?w' = Inr listed
                \<and> (\<forall>row \<in> set listed.
                      \<exists>t \<in> set TEXTS. \<exists>c \<in> set COLORS. row = [PStr t, PStr c])"
      by blast
  qed
  show "\<exists>new.
        rows_of ?w' ?p ''entries'' = rows_of w ?p ''entries'' @ new
        \<and> length new = 100
        \<and> (\<forall>i<100. new ! i = (TEXTS ! (rng w (2 * i) mod length TEXTS),
                                  COLORS ! (rng w (2 * i + 1) mod length COLORS)))
        \<and> (\<forall>e \<in> set new. fst e \<in> set TEXTS \<and> snd e \<in> set COLORS)
        \<and> (rows_of w ?p ''entries'' = [] \<longrightarrow>
             (\<exists>listed. ingest_sqlite3 ?p ?w' = Inr listed
                \<and> (\<forall>row \<in> set listed.
                      \<exists>t \<in> set TEXTS. \<exists>c \<in> set COLORS. row = [PStr t, PStr c])))"
    using r idx pal lst seed_rows_length [of 100 "rng w"] by blast
qed

theorem C8_seed_rows_from_palettes_witness:
  "openable fresh_world (path_join ''/data/sqlite'' DB_NAME)
   \<and> rows_of fresh_world (path_join ''/data/sqlite'' DB_NAME) ''entries'' = []
   \<and> hd (rows_of (snd (init_sqlite3 (Some ''/data/sqlite'') fresh_world))
             (path_join ''/data/sqlite'' DB_NAME) ''entries'')
       = (''Test text 1'', ''0.0_1_0.0'')
   \<and> (\<exists>listed.
         ingest_sqlite3 (path_join ''/data/sqlite'' DB_NAME)
           (snd (init_sqlite3 (Some ''/data/sqlite'') fresh_world)) = Inr listed
         \<and> hd listed = [PStr ''Test text 1'', PStr ''0.0_1_0.0''])"
proof -
  let ?p = "path_join ''/data/sqlite'' DB_NAME"
  let ?w' = "snd (init_sqlite3 (Some ''/data/sqlite'') fresh_world)"
  have o: "openable fresh_world ?p"
    by (simp add: data_path fresh_world_def)
  have e: "rows_of fresh_world ?p ''entries'' = []"
    by (simp add: rows_of_def fresh_world_def)
  from C8_seed_rows_from_palettes [of fresh_world "''/data/sqlite''"] o e
  obtain new listed where
    r: "rows_of ?w' ?p ''entries'' = new" and l: "length new = 100"
    and i: "\<forall>i<100. new ! i = (TEXTS ! (rng fresh_world (2 * i) mod length TEXTS),
                                  COLORS ! (rng fresh_world (2 * i + 1) mod length COLORS))"
    and g: "ingest_sqlite3 ?p ?w' = Inr listed"
    by auto
  from i have "new ! 0 = (''Test text 1'', ''0.0_1_0.0'')"
    by (simp add: fresh_world_def TEXTS_def COLORS_def)
  with l have h: "hd new = (''Test text 1'', ''0.0_1_0.0'')"
    by (cases new) simp_all
  have o': "openable ?w' ?p"
    using o by (simp add: init_sqlite3_openable)
  have "listed = map entry_row new"
    using g o' r by (simp add: ingest_sqlite3_result)
  with l h have "hd listed = [PStr ''Test text 1'', PStr ''0.0_1_0.0'']"
    by (cases new) (simp_all add: entry_row_def)
  with o e r h g show ?thesis by simp
qed

text \<open>
  C9 (listing reflects the inserts). When a list of entries has been inserted and committed,
  the rows that \<^verbatim>\<open>ingest_sqlite3\<close> lists afterwards are, as a multiset, the rows listed before
  plus the inserted ones: every pair occurs as many more times as it was inserted.
\<close>

theorem C9_listing_reflects_inserts:
  assumes "insert_and_commit p es w = (Inr (), w')"
  shows "\<exists>before after.
           ingest_sqlite3 p w = Inr before
           \<and> ingest_sqlite3 p w' = Inr after
           \<and> mset after = mset before + mset (map entry_row es)
           \<and> (\<forall>e. count (mset after) (entry_row e)
                    = count (mset before) (entry_row e) + count (mset es) e)"
proof -
  let ?before = "map entry_row (rows_of w p ''entries'')"
  let ?after = "map entry_row (rows_of w' p ''entries'')"
  from rows_after_insert [OF assms]
  have o: "openable w p" and o': "openable w' p"
    and r: "rows_of w' p ''entries'' = rows_of w p ''entries'' @ es"
    by simp_all
  have b: "ingest_sqlite3 p w = Inr ?before"
    using o by (simp add: ingest_sqlite3_result)
  have a: "ingest_sqlite3 p w' = Inr ?after"
    using o' by (simp add: ingest_sqlite3_result)
  have m: "mset ?after = mset ?before + mset (map entry_row es)"
    by (simp add: r)
  have c: "\<forall>e. count (mset ?after) (entry_row e)
                    = count (mset ?before) (entry_row e) + count (mset es) e"
  proof
    fix e
    have "count (mset ?after) (entry_row e)
            = count (mset ?before) (entry_row e) + count (mset (map entry_row es)) (entry_row e)"
      by (simp only: m count_union)
    then show "count (mset ?after) (entry_row e)
                    = count (mset ?before) (entry_row e) + count (mset es) e"
      by (simp only: count_entry_rows)
  qed
  from b a m c show ?thesis by blast
qed

theorem C9_listing_reflects_inserts_witness:
  "insert_and_commit ''/data/sqlite/test.db''
       [(''Lorem Ipsum'', ''1_1_1''), (''blah blah blah'', ''1_0.0_0.0''), (''Lorem Ipsum'', ''1_1_1'')]
       (snd (delete_sqlite_entries ''/data/sqlite/test.db'' ''entries'' stocked_world))
     = (Inr (), snd (insert_and_commit ''/data/sqlite/test.db''
          [(''Lorem Ipsum'', ''1_1_1''), (''blah blah blah'', ''1_0.0_0.0''), (''Lorem Ipsum'', ''1_1_1'')]
          (snd (delete_sqlite_entries ''/data/sqlite/test.db'' ''entries'' stocked_world))))
   \<and> (\<exists>after.
         ingest_sqlite3 ''/data/sqlite/test.db''
           (snd (insert_and_commit ''/data/sqlite/test.db''
              [(''Lorem Ipsum'', ''1_1_1''), (''blah blah blah'', ''1_0.0_0.0''), (''Lorem Ipsum'', ''1_1_1'')]
              (snd (delete_sqlite_entries ''/data/sqlite/test.db'' ''entries'' stocked_world))))
           = Inr after
         \<and> count (mset after) (entry_row (''Lorem Ipsum'', ''1_1_1'')) = 2
         \<and> count (mset after) (entry_row (''blah blah blah'', ''1_0.0_0.0'')) = 1
         \<and> size (mset after) = 3)"
proof -
  let ?p = "''/data/sqlite/test.db''"
  let ?es = "[(''Lorem Ipsum'', ''1_1_1''), (''blah blah blah'', ''1_0.0_0.0''), (''Lorem Ipsum'', ''1_1_1'')]"
  let ?w = "snd (delete_sqlite_entries ?p ''entries'' stocked_world)"
  let ?w' = "snd (insert_and_commit ?p ?es ?w)"
  have w: "?w = stocked_world\<lparr>files := (files stocked_world)(?p := (files stocked_world ?p)(''entries'' \<mapsto> []))\<rparr>"
    by (simp add: delete_result stocked_world_def)
  have h: "insert_and_commit ?p ?es ?w = (Inr (), ?w')"
    unfolding w by (simp add: insert_and_commit_result stocked_world_def)
  have b: "ingest_sqlite3 ?p ?w = Inr []"
    unfolding w by (simp add: ingest_sqlite3_result rows_of_def stocked_world_def)
  from C9_listing_reflects_inserts [OF h] b
  obtain after where a: "ingest_sqlite3 ?p ?w' = Inr after"
    and m: "mset after = mset (map entry_row ?es)"
    and c: "\<forall>e. count (mset after) (entry_row e) = count (mset ?es) e"
    by auto
  from c have c1: "count (mset after) (entry_row (''Lorem Ipsum'', ''1_1_1'')) = 2"
    and c2: "count (mset after) (entry_row (''blah blah blah'', ''1_0.0_0.0'')) = 1"
    by simp_all
  from m have "size (mset after) = 3" by simp
  with h a c1 c2 show ?thesis by blast
qed

text \<open>
  C10 (shape of the colour tuple). For every entry the colour tuple built by
  \<^verbatim>\<open>load_button\<close> has one element more than the colour string has pieces between
  underscores, and its last element is the integer 1; it has four elements exactly when the
  colour string contains two underscores, and two elements when it contains none.
\<close>

theorem C10_colour_tuple_shape:
  "length (background_color (load_button (t, c))) = 1 + length (str_split CHR ''_'' c)
   \<and> last (background_color (load_button (t, c))) = PInt 1
   \<and> (length (background_color (load_button (t, c))) = 4 \<longleftrightarrow> count_list c CHR ''_'' = 2)
   \<and> (CHR ''_'' \<notin> set c \<longrightarrow> length (background_color (load_button (t, c))) = 2)"
  by (simp add: load_button_def length_str_split count_list_0_iff)

theorem C10_colour_tuple_shape_witness:
  "CHR ''_'' \<notin> set ''red''
   \<and> length (background_color (load_button (''Lorem Ipsum'', ''red''))) = 2
   \<and> last (background_color (load_button (''Lorem Ipsum'', ''red''))) = PInt 1"
  using C10_colour_tuple_shape [of "''Lorem Ipsum''" "''red''"] by simp

end
